theory Spec2Isabelle
  imports Main "HOL-Library.Sublist" "HOL-Library.AList"
begin

section \<open>Text primitives of the Python runtime\<close>

text \<open>
  The program is Python; its strings are sequences of code points. The model uses
  \<^typ>\<open>string\<close> and reads a \<^typ>\<open>char\<close> as the code point of the same number
  (0 to 255). Within that range Python's \<^verbatim>\<open>str.isspace\<close> (which \<^verbatim>\<open>\s\<close>, \<^verbatim>\<open>\S\<close> and
  \<^verbatim>\<open>str.strip()\<close> follow) holds of 9..13, 28..32, 133 and 160, and \<^verbatim>\<open>\d\<close> holds of
  the ten ASCII digits only.
\<close>

definition LF :: char where
  "LF = CHR 0x0A"

definition CR :: char where
  "CR = CHR 0x0D"

definition CRLF :: string where
  "CRLF = [CR, LF]"

definition is_space :: "char \<Rightarrow> bool" where
  "is_space c =
     (let n = (of_char c :: nat)
      in (9 \<le> n \<and> n \<le> 13) \<or> (28 \<le> n \<and> n \<le> 32) \<or> n = 133 \<or> n = 160)"

definition is_digit :: "char \<Rightarrow> bool" where
  "is_digit c = (let n = (of_char c :: nat) in 48 \<le> n \<and> n \<le> 57)"

definition non_space :: "char \<Rightarrow> bool" where
  "non_space c = (\<not> is_space c)"

definition not_newline :: "char \<Rightarrow> bool" where
  "not_newline c = (c \<noteq> LF)"

text \<open>\<^verbatim>\<open>needle in s\<close> for strings: some suffix of \<open>s\<close> starts with the needle.\<close>

fun contains :: "string \<Rightarrow> string \<Rightarrow> bool" where
  "contains needle [] = (needle = [])"
| "contains needle (c # cs) = (prefix needle (c # cs) \<or> contains needle cs)"

text \<open>
  \<^verbatim>\<open>s.split(sep)\<close> with a separator: cut at each occurrence found scanning from the
  left, occurrences do not overlap. (Python raises ValueError for an empty separator; the
  program only passes the three non-empty constants below, and the model then never cuts.)
\<close>

fun split_acc :: "string \<Rightarrow> string \<Rightarrow> string \<Rightarrow> string list" where
  "split_acc sep acc [] = [acc]"
| "split_acc sep acc (c # cs) =
     (if sep \<noteq> [] \<and> prefix sep (c # cs)
      then acc # split_acc sep [] (drop (length sep - 1) cs)
      else split_acc sep (acc @ [c]) cs)"

definition split :: "string \<Rightarrow> string \<Rightarrow> string list" where
  "split s sep = split_acc sep [] s"

text \<open>\<^verbatim>\<open>sep.join(xs)\<close>.\<close>

fun join :: "string \<Rightarrow> string list \<Rightarrow> string" where
  "join sep [] = []"
| "join sep [x] = x"
| "join sep (x # y # ys) = x @ sep @ join sep (y # ys)"

text \<open>\<^verbatim>\<open>s.strip()\<close>: whitespace removed at both ends.\<close>

definition strip :: "string \<Rightarrow> string" where
  "strip s = rev (dropWhile is_space (rev (dropWhile is_space s)))"

text \<open>Truthiness of an optional string (\<^verbatim>\<open>None\<close> and \<^verbatim>\<open>""\<close> are falsy).\<close>

fun truthy :: "string option \<Rightarrow> bool" where
  "truthy None = False"
| "truthy (Some s) = (s \<noteq> [])"

section \<open>Regular expressions as the program uses them\<close>

text \<open>
  The patterns of \<^verbatim>\<open>switch.py\<close> are sequences of literals, one-character classes
  repeated greedily (\<^verbatim>\<open>\S+\<close>, \<^verbatim>\<open>\d+\<close>, \<^verbatim>\<open>\s+\<close>) or lazily (\<^verbatim>\<open>.*?\<close>), and capturing
  groups. A pattern is a list of items; \<open>GOpen\<close> and \<open>GClose\<close> are the parentheses of a
  group. Matching backtracks as Python's \<^verbatim>\<open>re\<close> does: a greedy repetition tries the
  longest run first, a lazy one the shortest, and \<^verbatim>\<open>search\<close> takes the leftmost start
  at which a match exists.
\<close>

datatype item =
    Lit string
  | Plus "char \<Rightarrow> bool"
  | LazyStar "char \<Rightarrow> bool"
  | GOpen
  | GClose

type_synonym pattern = "item list"

text \<open>The text consumed so far is appended to the group that is open, if one is.\<close>

fun grow :: "string option \<Rightarrow> string \<Rightarrow> string option" where
  "grow None t = None"
| "grow (Some g) t = Some (g @ t)"

fun close_group :: "string option \<Rightarrow> string" where
  "close_group None = []"
| "close_group (Some g) = g"

text \<open>
  \<open>greedy p k g s\<close>: the class \<open>p\<close> has consumed \<open>g\<close>; consume more of \<open>s\<close> while
  possible, and on failure of the continuation \<open>k\<close> give characters back one by one.
\<close>

fun greedy :: "(char \<Rightarrow> bool) \<Rightarrow> (string \<Rightarrow> string \<Rightarrow> 'a option) \<Rightarrow> string \<Rightarrow> string \<Rightarrow> 'a option" where
  "greedy p k g [] = k g []"
| "greedy p k g (c # cs) =
     (if p c
      then (case greedy p k (g @ [c]) cs of Some r \<Rightarrow> Some r | None \<Rightarrow> k g (c # cs))
      else k g (c # cs))"

text \<open>\<open>lazy p k g s\<close>: try the continuation first, consume one more character on failure.\<close>

fun lazy :: "(char \<Rightarrow> bool) \<Rightarrow> (string \<Rightarrow> string \<Rightarrow> 'a option) \<Rightarrow> string \<Rightarrow> string \<Rightarrow> 'a option" where
  "lazy p k g [] = k g []"
| "lazy p k g (c # cs) =
     (case k g (c # cs) of
        Some r \<Rightarrow> Some r
      | None \<Rightarrow> if p c then lazy p k (g @ [c]) cs else None)"

text \<open>
  \<open>rmatch items done cur s\<close> matches the items at the start of \<open>s\<close>; \<open>done\<close> are the
  groups already closed, \<open>cur\<close> the text of the open group. The result is the list of
  groups, in the order of their closing parentheses.
\<close>

fun rmatch :: "pattern \<Rightarrow> string list \<Rightarrow> string option \<Rightarrow> string \<Rightarrow> string list option" where
  "rmatch [] done cur s = Some done"
| "rmatch (Lit l # items) done cur s =
     (if prefix l s then rmatch items done (grow cur l) (drop (length l) s) else None)"
| "rmatch (Plus p # items) done cur [] = None"
| "rmatch (Plus p # items) done cur (c # cs) =
     (if p c then greedy p (\<lambda>g rest. rmatch items done (grow cur (c # g)) rest) [] cs else None)"
| "rmatch (LazyStar p # items) done cur s =
     lazy p (\<lambda>g rest. rmatch items done (grow cur g) rest) [] s"
| "rmatch (GOpen # items) done cur s = rmatch items done (Some []) s"
| "rmatch (GClose # items) done cur s = rmatch items (done @ [close_group cur]) None s"

text \<open>\<^verbatim>\<open>pattern.search(s)\<close>: the match at the leftmost position that has one.\<close>

fun search :: "pattern \<Rightarrow> string \<Rightarrow> string list option" where
  "search pat [] = rmatch pat [] None []"
| "search pat (c # cs) =
     (case rmatch pat [] None (c # cs) of Some r \<Rightarrow> Some r | None \<Rightarrow> search pat cs)"

text \<open>\<^verbatim>\<open>match.group(key)\<close> for a pattern with one group.\<close>

fun group1 :: "string list \<Rightarrow> string" where
  "group1 [] = []"
| "group1 (g # gs) = g"

text \<open>\<^verbatim>\<open>\d+\.\d+\.\d+\.\d+\<close>, the shape the IP patterns of both parsers capture.\<close>

definition dotted_quad :: pattern where
  "dotted_quad =
     [Plus is_digit, Lit ''.'', Plus is_digit, Lit ''.'', Plus is_digit, Lit ''.'', Plus is_digit]"

text \<open>
  Whether the next parenthesis in a pattern closes the group that is open (used to state
  that such a group is not empty).
\<close>

fun closes_first :: "pattern \<Rightarrow> bool" where
  "closes_first [] = False"
| "closes_first (GClose # items) = True"
| "closes_first (GOpen # items) = False"
| "closes_first (Lit l # items) = closes_first items"
| "closes_first (Plus p # items) = closes_first items"
| "closes_first (LazyStar p # items) = closes_first items"

section \<open>Errors and addresses\<close>

text \<open>
  The exceptions the program can raise: the three of \<^verbatim>\<open>errors.py\<close> it uses, and those
  of the runtime and the libraries it calls (attribute access on \<^verbatim>\<open>None\<close>, a failed
  \<^verbatim>\<open>assert\<close>, subscripting \<^verbatim>\<open>None\<close>, pydantic's validation error, and
  \<^verbatim>\<open>ipaddress.AddressValueError\<close>).
\<close>

datatype error =
    NotConnectedError
  | ConnectionFailedError
  | CDPNotEnabledError
  | AttributeError
  | AssertionError
  | TypeError
  | ValidationError
  | AddressValueError

text \<open>
  \<^verbatim>\<open>ipaddress.IPv4Address(s)\<close> of the standard library, for a string argument: no
  \<^verbatim>\<open>/\<close>, exactly four octets separated by dots, each of one to three ASCII digits,
  without a leading zero unless it is \<^verbatim>\<open>0\<close> itself, and at most 255. Two addresses
  are equal when their 32-bit values are, so an address is its value.
\<close>

type_synonym IPv4Address = int

definition digit_val :: "char \<Rightarrow> int" where
  "digit_val c = of_char c - 48"

definition parse_octet :: "string \<Rightarrow> int option" where
  "parse_octet octet_str =
     (if octet_str = [] then None
      else if \<not> list_all is_digit octet_str then None
      else if length octet_str > 3 then None
      else if octet_str \<noteq> ''0'' \<and> hd octet_str = CHR ''0'' then None
      else let octet_int = foldl (\<lambda>n c. 10 * n + digit_val c) 0 octet_str
           in if octet_int > 255 then None else Some octet_int)"

fun parse_octets :: "string list \<Rightarrow> int list option" where
  "parse_octets [] = Some []"
| "parse_octets (x # xs) =
     (case parse_octet x of
        None \<Rightarrow> None
      | Some n \<Rightarrow> (case parse_octets xs of None \<Rightarrow> None | Some ns \<Rightarrow> Some (n # ns)))"

definition IPv4Address :: "string \<Rightarrow> error + IPv4Address" where
  "IPv4Address addr_str =
     (if CHR ''/'' \<in> set addr_str then Inl AddressValueError
      else if addr_str = [] then Inl AddressValueError
      else let octets = split addr_str ''.''
           in if length octets \<noteq> 4 then Inl AddressValueError
              else (case parse_octets octets of
                      None \<Rightarrow> Inl AddressValueError
                    | Some ns \<Rightarrow> Inr (foldl (\<lambda>v n. 256 * v + n) 0 ns)))"

section \<open>The models of \<^verbatim>\<open>models.py\<close>\<close>

text \<open>
  \<^verbatim>\<open>Neighbor\<close> hashes on \<^verbatim>\<open>(hostname, ip)\<close> and inherits the field-wise equality of
  pydantic's base model: equality of the record is equality of the two fields.
\<close>

record Neighbor =
  hostname :: string
  ip :: "IPv4Address option"

record CiscoCDP =
  device_id :: string
  entry_ip :: "IPv4Address option"
  platform :: string
  interface :: string
  outgoing_port :: string
  duplex :: string
  management_ip :: "IPv4Address option"

record CiscoLLDP =
  chassis_id :: string
  port_id :: string
  interface :: string
  system_name :: string
  management_ip :: "IPv4Address option"

text \<open>The right operand of \<^verbatim>\<open>==\<close> can be any object.\<close>

datatype py_object =
    CDP_object CiscoCDP
  | LLDP_object CiscoLLDP
  | Other_object

fun CiscoCDP_eq :: "CiscoCDP \<Rightarrow> py_object \<Rightarrow> bool" where
  "CiscoCDP_eq self (CDP_object other) = (self = other)"
| "CiscoCDP_eq self (LLDP_object other) =
     (device_id self = system_name other \<and>
      CiscoCDP.management_ip self = CiscoLLDP.management_ip other)"
| "CiscoCDP_eq self Other_object = False"

fun CiscoLLDP_eq :: "CiscoLLDP \<Rightarrow> py_object \<Rightarrow> bool" where
  "CiscoLLDP_eq self (LLDP_object other) = (self = other)"
| "CiscoLLDP_eq self (CDP_object other) =
     (system_name self = device_id other \<and>
      CiscoLLDP.management_ip self = CiscoCDP.management_ip other)"
| "CiscoLLDP_eq self Other_object = False"

text \<open>
  Keyword arguments are a dictionary from field names to values; the values the program
  passes are strings, addresses and \<^verbatim>\<open>None\<close>.
\<close>

datatype py_value =
    PStr string
  | PAddr IPv4Address
  | PNone

type_synonym kwargs = "(string \<times> py_value) list"

text \<open>
  Validation of one field by pydantic: a \<^verbatim>\<open>str\<close> field must be given and be a string;
  an \<^verbatim>\<open>IPv4Address | None\<close> field must be given (the program always gives it) and is an
  address, \<^verbatim>\<open>None\<close>, or a string that parses as an address.
\<close>

definition str_field :: "kwargs \<Rightarrow> string \<Rightarrow> string option" where
  "str_field kw k = (case map_of kw k of Some (PStr s) \<Rightarrow> Some s | _ \<Rightarrow> None)"

definition addr_field :: "kwargs \<Rightarrow> string \<Rightarrow> IPv4Address option option" where
  "addr_field kw k =
     (case map_of kw k of
        Some (PAddr a) \<Rightarrow> Some (Some a)
      | Some PNone \<Rightarrow> Some None
      | Some (PStr s) \<Rightarrow> (case IPv4Address s of Inr a \<Rightarrow> Some (Some a) | Inl e \<Rightarrow> None)
      | None \<Rightarrow> None)"

text \<open>\<^verbatim>\<open>CiscoCDP(**kw)\<close> and \<^verbatim>\<open>CiscoLLDP(**kw)\<close>: every field is required.\<close>

definition CiscoCDP_init :: "kwargs \<Rightarrow> error + CiscoCDP" where
  "CiscoCDP_init kw =
     (case (str_field kw ''device_id'', addr_field kw ''entry_ip'', str_field kw ''platform'',
            str_field kw ''interface'', str_field kw ''outgoing_port'', str_field kw ''duplex'',
            addr_field kw ''management_ip'') of
        (Some d, Some e, Some p, Some i, Some out, Some du, Some m) \<Rightarrow>
          Inr \<lparr>device_id = d, entry_ip = e, platform = p, CiscoCDP.interface = i,
               outgoing_port = out, duplex = du, CiscoCDP.management_ip = m\<rparr>
      | _ \<Rightarrow> Inl ValidationError)"

definition CiscoLLDP_init :: "kwargs \<Rightarrow> error + CiscoLLDP" where
  "CiscoLLDP_init kw =
     (case (str_field kw ''chassis_id'', str_field kw ''port_id'', str_field kw ''interface'',
            str_field kw ''system_name'', addr_field kw ''management_ip'') of
        (Some c, Some p, Some i, Some s, Some m) \<Rightarrow>
          Inr \<lparr>chassis_id = c, port_id = p, CiscoLLDP.interface = i, system_name = s,
               CiscoLLDP.management_ip = m\<rparr>
      | _ \<Rightarrow> Inl ValidationError)"

section \<open>The session\<close>

text \<open>
  The session object is netmiko's; the program only calls it. Its answers are taken as
  given: \<open>prompt_at n\<close> is what \<^verbatim>\<open>find_prompt()\<close> returns when it is the \<open>n\<close>-th call
  on the session (a string or \<^verbatim>\<open>None\<close>), \<open>output_at n cmds\<close> the text a command call
  returns. Every call is one round trip and advances \<open>clock\<close>, so a session that was
  not queried has the clock it had.
\<close>

record session =
  clock :: nat
  prompt_at :: "nat \<Rightarrow> string option"
  output_at :: "nat \<Rightarrow> string list \<Rightarrow> string"

definition tick :: "session \<Rightarrow> session" where
  "tick c = c\<lparr>clock := Suc (clock c)\<rparr>"

definition find_prompt :: "session \<Rightarrow> string option \<times> session" where
  "find_prompt c = (prompt_at c (clock c), tick c)"

definition send_multiline :: "session \<Rightarrow> string list \<Rightarrow> string \<times> session" where
  "send_multiline c cmds = (output_at c (clock c) cmds, tick c)"

definition send_config_set :: "session \<Rightarrow> string list \<Rightarrow> string \<times> session" where
  "send_config_set c cmds = (output_at c (clock c) cmds, tick c)"

definition enable :: "session \<Rightarrow> session" where
  "enable c = tick c"

definition session_disconnect :: "session \<Rightarrow> session" where
  "session_disconnect c = tick c"

text \<open>\<^verbatim>\<open>CustomCiscoIosBase.set_base_prompt\<close>: the parent class's prompt, cut to 16.\<close>

definition set_base_prompt :: "string \<Rightarrow> string" where
  "set_base_prompt base_prompt = take 16 base_prompt"

section \<open>\<^verbatim>\<open>CiscoSwitch\<close>\<close>

record CiscoSwitch =
  ip :: IPv4Address
  cdp :: "CiscoCDP list"
  lldp :: "CiscoLLDP list"
  conn :: "session option"
  hostname_memo :: "string option"

text \<open>
  \<open>hostname_memo\<close> is the attribute \<^verbatim>\<open>_hostname\<close>. A method returns its value or the
  exception it raised, and the object as the call left it.
\<close>

type_synonym 'a outcome = "(error + 'a) \<times> CiscoSwitch"

definition CiscoSwitch_init :: "IPv4Address \<Rightarrow> CiscoSwitch" where
  "CiscoSwitch_init a = \<lparr>CiscoSwitch.ip = a, cdp = [], lldp = [], conn = None, hostname_memo = None\<rparr>"

text \<open>
  \<^verbatim>\<open>connect\<close>: the handler either builds a session or raises, and any exception becomes
  \<^verbatim>\<open>ConnectionFailedError\<close>.
\<close>

definition connect :: "CiscoSwitch \<Rightarrow> session option \<Rightarrow> unit outcome" where
  "connect self handler =
     (case handler of
        None \<Rightarrow> (Inl ConnectionFailedError, self)
      | Some c \<Rightarrow> (Inr (), self\<lparr>conn := Some c\<rparr>))"

text \<open>\<^verbatim>\<open>_check_connection\<close>: \<^verbatim>\<open>self.conn.find_prompt()\<close> is an attribute access on \<^verbatim>\<open>self.conn\<close>.\<close>

definition check_connection :: "CiscoSwitch \<Rightarrow> unit outcome" where
  "check_connection self =
     (case conn self of
        None \<Rightarrow> (Inl AttributeError, self)
      | Some c \<Rightarrow>
          (case find_prompt c of
             (None, c') \<Rightarrow> (Inl NotConnectedError, self\<lparr>conn := Some c'\<rparr>)
           | (Some p, c') \<Rightarrow> (Inr (), self\<lparr>conn := Some c'\<rparr>)))"

text \<open>
  The property \<^verbatim>\<open>hostname\<close>. \<open>query_hostname\<close> is the part after the test of the
  cached value: the liveness check, a second \<^verbatim>\<open>find_prompt()\<close> and the slice \<^verbatim>\<open>[:-1]\<close>.
\<close>

definition query_hostname :: "CiscoSwitch \<Rightarrow> string outcome" where
  "query_hostname self =
     (case check_connection self of
        (Inl e, self1) \<Rightarrow> (Inl e, self1)
      | (Inr u, self1) \<Rightarrow>
          (case conn self1 of
             None \<Rightarrow> (Inl AttributeError, self1)
           | Some c \<Rightarrow>
               (case find_prompt c of
                  (None, c') \<Rightarrow> (Inl TypeError, self1\<lparr>conn := Some c'\<rparr>)
                | (Some p, c') \<Rightarrow>
                    (Inr (butlast p), self1\<lparr>conn := Some c', hostname_memo := Some (butlast p)\<rparr>))))"

definition hostname_property :: "CiscoSwitch \<Rightarrow> string outcome" where
  "hostname_property self =
     (case hostname_memo self of
        None \<Rightarrow> query_hostname self
      | Some h \<Rightarrow> if h \<noteq> [] then (Inr h, self) else query_hostname self)"

text \<open>
  The property \<^verbatim>\<open>neighbors\<close>. \<^verbatim>\<open>list(set(xs))\<close> holds each distinct element once, in the
  order of the hash table; the model returns the set of its elements.
\<close>

definition cdp_neighbor :: "CiscoCDP \<Rightarrow> Neighbor" where
  "cdp_neighbor data = \<lparr>hostname = device_id data, Neighbor.ip = CiscoCDP.management_ip data\<rparr>"

definition lldp_neighbor :: "CiscoLLDP \<Rightarrow> Neighbor" where
  "lldp_neighbor data = \<lparr>hostname = system_name data, Neighbor.ip = CiscoLLDP.management_ip data\<rparr>"

definition neighbors :: "CiscoSwitch \<Rightarrow> Neighbor set outcome" where
  "neighbors self =
     (case check_connection self of
        (Inl e, self1) \<Rightarrow> (Inl e, self1)
      | (Inr u, self1) \<Rightarrow>
          (let cdp_results = map cdp_neighbor (cdp self1);
               lldp_results = map lldp_neighbor (lldp self1)
           in (Inr (set (cdp_results @ lldp_results)), self1)))"

definition disconnect :: "CiscoSwitch \<Rightarrow> unit outcome" where
  "disconnect self =
     (case check_connection self of
        (Inl e, self1) \<Rightarrow> (Inl e, self1)
      | (Inr u, self1) \<Rightarrow>
          (case conn self1 of
             None \<Rightarrow> (Inl AttributeError, self1)
           | Some c \<Rightarrow> (Inr (), self1\<lparr>conn := Some (session_disconnect c)\<rparr>)))"

text \<open>
  \<^verbatim>\<open>activate_cdp\<close>, \<^verbatim>\<open>activate_lldp\<close>, \<^verbatim>\<open>deactivate_cdp\<close> and \<^verbatim>\<open>deactivate_lldp\<close> differ
  in the configuration line only.
\<close>

definition config_command :: "string \<Rightarrow> CiscoSwitch \<Rightarrow> string list outcome" where
  "config_command line self =
     (case check_connection self of
        (Inl e, self1) \<Rightarrow> (Inl e, self1)
      | (Inr u, self1) \<Rightarrow>
          (case conn self1 of
             None \<Rightarrow> (Inl AttributeError, self1)
           | Some c \<Rightarrow>
               (case send_config_set (enable c) [line] of
                  (out, c') \<Rightarrow> (Inr (split out [LF]), self1\<lparr>conn := Some c'\<rparr>))))"

definition activate_cdp :: "CiscoSwitch \<Rightarrow> string list outcome" where
  "activate_cdp = config_command ''cdp run''"

definition activate_lldp :: "CiscoSwitch \<Rightarrow> string list outcome" where
  "activate_lldp = config_command ''lldp run''"

definition deactivate_cdp :: "CiscoSwitch \<Rightarrow> string list outcome" where
  "deactivate_cdp = config_command ''no cdp run''"

definition deactivate_lldp :: "CiscoSwitch \<Rightarrow> string list outcome" where
  "deactivate_lldp = config_command ''no lldp run''"

section \<open>Parsing the command output\<close>

text \<open>
  The inner loop of both parsers: every named pattern searches the whole block, and each
  one that matches stores its group under its name. The dictionary \<^verbatim>\<open>matched\<close> is the
  list of its items in insertion order; the names of a pattern table are distinct, so its
  length is \<^verbatim>\<open>len(matched)\<close>.
\<close>

fun apply_patterns :: "(string \<times> pattern) list \<Rightarrow> string \<Rightarrow> (string \<times> string) list" where
  "apply_patterns [] block = []"
| "apply_patterns ((key, pat) # ps) block =
     (case search pat block of
        Some r \<Rightarrow> (key, group1 r) # apply_patterns ps block
      | None \<Rightarrow> apply_patterns ps block)"

definition cdp_patterns :: "(string \<times> pattern) list" where
  "cdp_patterns =
     [(''device_id'', [Lit ''Device ID: '', GOpen, Plus non_space, GClose]),
      (''entry_ip'', [Lit ''IP address: '', GOpen] @ dotted_quad @ [GClose]),
      (''platform'', [Lit ''Platform: '', GOpen, LazyStar not_newline, GClose, Lit '','']),
      (''interface'', [Lit ''Interface: '', GOpen, Plus non_space, GClose, Lit '','']),
      (''outgoing_port'', [Lit ''Port ID (outgoing port): '', GOpen, Plus non_space, GClose]),
      (''duplex'', [Lit ''Duplex: '', GOpen, Plus non_space, GClose]),
      (''management_ip'',
         [Lit (''Management address(es): '' @ CRLF @ ''  IP address: ''), GOpen]
         @ dotted_quad @ [GClose])]"

definition lldp_patterns :: "(string \<times> pattern) list" where
  "lldp_patterns =
     [(''chassis_id'', [Lit ''Chassis id: '', GOpen, Plus non_space, GClose]),
      (''port_id'', [Lit ''Port id: '', GOpen, Plus non_space, GClose]),
      (''system_name'', [Lit ''System Name: '', GOpen, Plus non_space, GClose]),
      (''management_ip'', [Lit ''IP: '', GOpen] @ dotted_quad @ [GClose])]"

text \<open>\<^verbatim>\<open>(\S+)\s+(\S+)\<close>, searched in every line of the brief listing.\<close>

definition brief_pattern :: pattern where
  "brief_pattern =
     [GOpen, Plus non_space, GClose, Plus is_space, GOpen, Plus non_space, GClose]"

fun group2 :: "string list \<Rightarrow> string" where
  "group2 (g # h # gs) = h"
| "group2 gs = []"

text \<open>\<^verbatim>\<open>a or b\<close> on optional strings.\<close>

definition py_or :: "string option \<Rightarrow> string option \<Rightarrow> string option" where
  "py_or a b = (if truthy a then a else b)"

text \<open>
  \<^verbatim>\<open>IPv4Address(v) if cond else None\<close>. (\<^verbatim>\<open>IPv4Address(None)\<close> reads the text \<^verbatim>\<open>None\<close>
  and rejects it.)
\<close>

definition address_if :: "string option \<Rightarrow> string option \<Rightarrow> error + py_value" where
  "address_if cond v =
     (if truthy cond
      then (case v of
              None \<Rightarrow> Inl AddressValueError
            | Some s \<Rightarrow> (case IPv4Address s of Inl e \<Rightarrow> Inl e | Inr a \<Rightarrow> Inr (PAddr a)))
      else Inr PNone)"

definition as_kwargs :: "(string \<times> string) list \<Rightarrow> kwargs" where
  "as_kwargs matched = map (\<lambda>(k, v). (k, PStr v)) matched"

text \<open>
  The body of the loop of \<^verbatim>\<open>get_cdp\<close> over the blocks: \<open>Inr None\<close> is \<^verbatim>\<open>continue\<close>,
  \<open>Inr (Some e)\<close> the entry appended, \<open>Inl\<close> an exception leaving the loop.
\<close>

definition cdp_block :: "string \<Rightarrow> error + CiscoCDP option" where
  "cdp_block block =
     (let matched = apply_patterns cdp_patterns block
      in if length matched \<le> 2 then Inr None
         else
           let entry_ip = map_of matched ''entry_ip'';
               management_ip = py_or (map_of matched ''management_ip'') entry_ip
           in (case address_if entry_ip entry_ip of
                 Inl e \<Rightarrow> Inl e
               | Inr ev \<Rightarrow>
                   (case address_if entry_ip management_ip of
                      Inl e \<Rightarrow> Inl e
                    | Inr mv \<Rightarrow>
                        (case CiscoCDP_init
                                (AList.update ''management_ip'' mv
                                   (AList.update ''entry_ip'' ev (as_kwargs matched))) of
                           Inl e \<Rightarrow> Inl e
                         | Inr entry \<Rightarrow> Inr (Some entry)))))"

fun cdp_loop :: "string list \<Rightarrow> CiscoCDP list \<Rightarrow> error + CiscoCDP list" where
  "cdp_loop [] result = Inr result"
| "cdp_loop (block # blocks) result =
     (case cdp_block block of
        Inl e \<Rightarrow> Inl e
      | Inr None \<Rightarrow> cdp_loop blocks result
      | Inr (Some entry) \<Rightarrow> cdp_loop blocks (result @ [entry]))"

definition cdp_delimiter :: string where
  "cdp_delimiter = ''-------------------------'' @ CRLF"

definition cdp_blocks :: "string \<Rightarrow> string list" where
  "cdp_blocks out = split (strip (join CRLF (split out [LF]))) cdp_delimiter"

text \<open>
  \<^verbatim>\<open>get_cdp\<close>. The message printed for an empty result reads \<^verbatim>\<open>self.hostname\<close>, so the
  property runs (and can raise) before the list is stored.
\<close>

definition get_cdp :: "CiscoSwitch \<Rightarrow> CiscoCDP list outcome" where
  "get_cdp self =
     (case check_connection self of
        (Inl e, self1) \<Rightarrow> (Inl e, self1)
      | (Inr u, self1) \<Rightarrow>
          (case conn self1 of
             None \<Rightarrow> (Inl AttributeError, self1)
           | Some c \<Rightarrow>
               (case send_multiline c [''show cdp neighbors detail''] of
                  (out, c') \<Rightarrow>
                    (let self2 = self1\<lparr>conn := Some c'\<rparr>
                     in if list_ex (contains ''CDP is not enabled'') (split out [LF])
                        then (Inl CDPNotEnabledError, self2)
                        else
                          (case cdp_loop (cdp_blocks out) [] of
                             Inl e \<Rightarrow> (Inl e, self2)
                           | Inr result \<Rightarrow>
                               if result = []
                               then (case hostname_property self2 of
                                       (Inl e, self3) \<Rightarrow> (Inl e, self3)
                                     | (Inr h, self3) \<Rightarrow> (Inr result, self3\<lparr>cdp := result\<rparr>))
                               else (Inr result, self2\<lparr>cdp := result\<rparr>))))))"

text \<open>The body of the first loop of \<^verbatim>\<open>get_lldp\<close>: a block gives a dictionary or is skipped.\<close>

definition lldp_block :: "string \<Rightarrow> error + kwargs option" where
  "lldp_block block =
     (let matched = apply_patterns lldp_patterns block
      in if length matched < 4 then Inr None
         else
           let management_ip = map_of matched ''management_ip''
           in (case address_if management_ip management_ip of
                 Inl e \<Rightarrow> Inl e
               | Inr mv \<Rightarrow> Inr (Some (AList.update ''management_ip'' mv (as_kwargs matched)))))"

fun lldp_loop :: "string list \<Rightarrow> kwargs list \<Rightarrow> error + kwargs list" where
  "lldp_loop [] detail_result = Inr detail_result"
| "lldp_loop (block # blocks) detail_result =
     (case lldp_block block of
        Inl e \<Rightarrow> Inl e
      | Inr None \<Rightarrow> lldp_loop blocks detail_result
      | Inr (Some item) \<Rightarrow> lldp_loop blocks (detail_result @ [item]))"

definition lldp_delimiter :: string where
  "lldp_delimiter = ''---------------------------------------------'' @ CRLF"

definition lldp_blocks :: "string \<Rightarrow> string list" where
  "lldp_blocks out = split (strip (join CRLF (split out [LF]))) lldp_delimiter"

text \<open>The second loop: the dictionary from device identifier to local interface.\<close>

fun local_intf_mapping :: "string list \<Rightarrow> (string \<times> string) list \<Rightarrow> (string \<times> string) list" where
  "local_intf_mapping [] m = m"
| "local_intf_mapping (line # rows) m =
     (case search brief_pattern line of
        Some r \<Rightarrow> local_intf_mapping rows (AList.update (group1 r) (group2 r) m)
      | None \<Rightarrow> local_intf_mapping rows m)"

text \<open>
  The third loop, for one item: \<^verbatim>\<open>item.get("system_name")\<close> is looked up in the mapping,
  and a truthy result is stored under \<^verbatim>\<open>interface\<close>.
\<close>

definition enrich :: "(string \<times> string) list \<Rightarrow> kwargs \<Rightarrow> kwargs" where
  "enrich m item =
     (case map_of item ''system_name'' of
        Some (PStr dev_id) \<Rightarrow>
          (case map_of m dev_id of
             Some local_intf \<Rightarrow>
               if local_intf \<noteq> [] then AList.update ''interface'' (PStr local_intf) item else item
           | None \<Rightarrow> item)
      | _ \<Rightarrow> item)"

text \<open>\<^verbatim>\<open>[CiscoLLDP(**each) for each in detail_result]\<close>: the first failure ends it.\<close>

fun build_lldp :: "kwargs list \<Rightarrow> error + CiscoLLDP list" where
  "build_lldp [] = Inr []"
| "build_lldp (each # rest) =
     (case CiscoLLDP_init each of
        Inl e \<Rightarrow> Inl e
      | Inr entry \<Rightarrow> (case build_lldp rest of Inl e \<Rightarrow> Inl e | Inr entries \<Rightarrow> Inr (entry # entries)))"

text \<open>
  \<^verbatim>\<open>get_lldp\<close> starts with \<^verbatim>\<open>assert self.conn is not None\<close> and makes no liveness check.
\<close>

definition get_lldp :: "CiscoSwitch \<Rightarrow> CiscoLLDP list outcome" where
  "get_lldp self =
     (case conn self of
        None \<Rightarrow> (Inl AssertionError, self)
      | Some c \<Rightarrow>
          (case send_multiline c [''show lldp neighbors detail''] of
             (out, c1) \<Rightarrow>
               (let self1 = self\<lparr>conn := Some c1\<rparr>
                in case lldp_loop (lldp_blocks out) [] of
                     Inl e \<Rightarrow> (Inl e, self1)
                   | Inr detail_result \<Rightarrow>
                       (case (if detail_result = []
                              then (case hostname_property self1 of
                                      (Inl e, s) \<Rightarrow> (Inl e, s)
                                    | (Inr h, s) \<Rightarrow> (Inr (), s))
                              else (Inr (), self1)) of
                          (Inl e, self2) \<Rightarrow> (Inl e, self2)
                        | (Inr u, self2) \<Rightarrow>
                            (case conn self2 of
                               None \<Rightarrow> (Inl AttributeError, self2)
                             | Some c2 \<Rightarrow>
                                 (case send_multiline c2 [''show lldp neighbors''] of
                                    (out2, c3) \<Rightarrow>
                                      (let self3 = self2\<lparr>conn := Some c3\<rparr>;
                                           m = local_intf_mapping (split out2 [LF]) [];
                                           items = map (enrich m) detail_result
                                       in case build_lldp items of
                                            Inl e \<Rightarrow> (Inl e, self3)
                                          | Inr result \<Rightarrow> (Inr result, self3\<lparr>lldp := result\<rparr>))))))))"

section \<open>Sample devices\<close>

text \<open>
  Concrete sessions and command outputs, on which the theorems below are instantiated.
  A scripted session gives the same prompt at every query and answers a command by a
  fixed function of the command.
\<close>

definition scripted :: "string option \<Rightarrow> (string list \<Rightarrow> string) \<Rightarrow> session" where
  "scripted prompt reply = \<lparr>clock = 0, prompt_at = (\<lambda>n. prompt), output_at = (\<lambda>n. reply)\<rparr>"

definition attached :: "session \<Rightarrow> CiscoSwitch" where
  "attached c = (CiscoSwitch_init 0)\<lparr>conn := Some c\<rparr>"

definition text_lines :: "string list \<Rightarrow> string" where
  "text_lines rows = join [LF] rows"

definition cdp_detail_R1 :: string where
  "cdp_detail_R1 = text_lines
     [''-------------------------'',
      ''Device ID: R1'',
      ''Entry address(es): '',
      ''  IP address: 10.0.0.7'',
      ''Platform: cisco WS-C2960,  Capabilities: Switch IGMP '',
      ''Interface: Gi0/1,  Port ID (outgoing port): Gi0/2'',
      ''Holdtime : 140 sec'',
      ''Duplex: full'',
      ''Management address(es): '',
      ''  IP address: 10.0.0.1'',
      []]"

definition lldp_detail_R1 :: string where
  "lldp_detail_R1 = text_lines
     [''---------------------------------------------'',
      ''Chassis id: aabb.cc00.0100'',
      ''Port id: Gi0/2'',
      ''System Name: R1'',
      ''Management Addresses:'',
      ''    IP: 10.0.0.1'',
      []]"

definition lldp_brief_R1 :: string where
  "lldp_brief_R1 = text_lines
     [''Device ID           Local Intf     Hold-time  Capability      Port ID'',
      ''R1    Gi0/1'',
      []]"

definition lldp_reply :: "string \<Rightarrow> string \<Rightarrow> string list \<Rightarrow> string" where
  "lldp_reply detail brief cmds =
     (if cmds = [''show lldp neighbors detail''] then detail else brief)"

definition cdp_R1 :: CiscoCDP where
  "cdp_R1 = \<lparr>device_id = ''R1'', entry_ip = Some 167772167, platform = ''cisco WS-C2960'',
              CiscoCDP.interface = ''Gi0/1'', outgoing_port = ''Gi0/2'', duplex = ''full'',
              CiscoCDP.management_ip = Some 167772161\<rparr>"

definition lldp_R1 :: CiscoLLDP where
  "lldp_R1 = \<lparr>chassis_id = ''aabb.cc00.0100'', port_id = ''Gi0/2'',
               CiscoLLDP.interface = ''Gi0/1'', system_name = ''R1'',
               CiscoLLDP.management_ip = Some 167772161\<rparr>"

definition lldp_R2 :: CiscoLLDP where
  "lldp_R2 = \<lparr>chassis_id = ''aabb.cc00.0200'', port_id = ''Gi0/3'',
               CiscoLLDP.interface = ''Gi0/4'', system_name = ''R2'',
               CiscoLLDP.management_ip = Some 167772162\<rparr>"

section \<open>The liveness check\<close>

lemma check_connection_live:
  "conn self = Some c \<Longrightarrow> prompt_at c (clock c) = Some p \<Longrightarrow>
   check_connection self = (Inr (), self\<lparr>conn := Some (tick c)\<rparr>)"
  by (simp add: check_connection_def find_prompt_def)

lemma check_connection_dead:
  "conn self = Some c \<Longrightarrow> prompt_at c (clock c) = None \<Longrightarrow>
   check_connection self = (Inl NotConnectedError, self\<lparr>conn := Some (tick c)\<rparr>)"
  by (simp add: check_connection_def find_prompt_def)

lemma check_connection_no_session:
  "conn self = None \<Longrightarrow> check_connection self = (Inl AttributeError, self)"
  by (simp add: check_connection_def)

section \<open>Equality across the two protocols\<close>

text \<open>
  C3. A CDP entry compared with an LLDP entry is equal exactly when the device identifier
  is the system name and the two management addresses are equal (two absent addresses
  are equal); the comparison gives the same answer from either side.
\<close>

theorem cross_protocol_equality:
  "CiscoCDP_eq c (LLDP_object l) =
     (device_id c = system_name l \<and> CiscoCDP.management_ip c = CiscoLLDP.management_ip l)
   \<and> CiscoLLDP_eq l (CDP_object c) = CiscoCDP_eq c (LLDP_object l)"
  by auto

theorem cross_protocol_equality_witness:
  "CiscoCDP_eq (cdp_R1\<lparr>CiscoCDP.management_ip := None\<rparr>)
     (LLDP_object (lldp_R1\<lparr>CiscoLLDP.management_ip := None\<rparr>))
   \<and> CiscoLLDP_eq lldp_R1 (CDP_object cdp_R1)
   \<and> \<not> CiscoCDP_eq cdp_R1 (LLDP_object lldp_R2)
   \<and> \<not> CiscoLLDP_eq lldp_R1 (CDP_object (cdp_R1\<lparr>CiscoCDP.management_ip := None\<rparr>))"
  using cross_protocol_equality
          [of "cdp_R1\<lparr>CiscoCDP.management_ip := None\<rparr>"
              "lldp_R1\<lparr>CiscoLLDP.management_ip := None\<rparr>"]
        cross_protocol_equality [of cdp_R1 lldp_R1]
        cross_protocol_equality [of cdp_R1 lldp_R2]
        cross_protocol_equality [of "cdp_R1\<lparr>CiscoCDP.management_ip := None\<rparr>" lldp_R1]
  by (simp add: cdp_R1_def lldp_R1_def lldp_R2_def)

section \<open>The neighbour view\<close>

text \<open>
  C1. On a live session, \<open>neighbors\<close> returns the set of the neighbours of the stored CDP
  entries (device identifier, management address) and of the stored LLDP entries (system
  name, management address). It depends on the stored lists only through their elements,
  so neither order nor repetition matters. Two neighbours are the same element exactly when
  both components agree, whichever protocol each came from.
\<close>

theorem neighbors_reconciled:
  assumes "conn self = Some c" and "prompt_at c (clock c) = Some p"
    and "set cs = set (cdp self)" and "set ls = set (lldp self)"
  shows "neighbors self =
           (Inr (cdp_neighbor ` set (cdp self) \<union> lldp_neighbor ` set (lldp self)),
            self\<lparr>conn := Some (tick c)\<rparr>)
         \<and> fst (neighbors (self\<lparr>cdp := cs, lldp := ls\<rparr>)) = fst (neighbors self)
         \<and> (cdp_neighbor d = lldp_neighbor l) =
             (device_id d = system_name l \<and>
              CiscoCDP.management_ip d = CiscoLLDP.management_ip l)
         \<and> (cdp_neighbor d = cdp_neighbor d') =
             (device_id d = device_id d' \<and>
              CiscoCDP.management_ip d = CiscoCDP.management_ip d')
         \<and> (lldp_neighbor l = lldp_neighbor l') =
             (system_name l = system_name l' \<and>
              CiscoLLDP.management_ip l = CiscoLLDP.management_ip l')"
proof -
  have a: "neighbors self =
           (Inr (cdp_neighbor ` set (cdp self) \<union> lldp_neighbor ` set (lldp self)),
            self\<lparr>conn := Some (tick c)\<rparr>)"
    using assms(1,2) by (simp add: neighbors_def check_connection_live)
  have "conn (self\<lparr>cdp := cs, lldp := ls\<rparr>) = Some c" using assms(1) by simp
  then have b: "neighbors (self\<lparr>cdp := cs, lldp := ls\<rparr>) =
           (Inr (cdp_neighbor ` set cs \<union> lldp_neighbor ` set ls),
            self\<lparr>cdp := cs, lldp := ls, conn := Some (tick c)\<rparr>)"
    using assms(2) by (simp add: neighbors_def check_connection_live)
  show ?thesis
    using a b assms(3,4) by (auto simp: cdp_neighbor_def lldp_neighbor_def)
qed

theorem neighbors_reconciled_witness:
  "fst (neighbors ((attached (scripted (Some ''SW1#'') (\<lambda>cmds. [])))
                     \<lparr>cdp := [cdp_R1], lldp := [lldp_R2, lldp_R1]\<rparr>))
     = Inr {\<lparr>hostname = ''R1'', Neighbor.ip = Some 167772161\<rparr>,
            \<lparr>hostname = ''R2'', Neighbor.ip = Some 167772162\<rparr>}
   \<and> fst (neighbors ((attached (scripted (Some ''SW1#'') (\<lambda>cmds. [])))
                     \<lparr>cdp := [cdp_R1, cdp_R1], lldp := [lldp_R1, lldp_R2]\<rparr>))
     = Inr {\<lparr>hostname = ''R1'', Neighbor.ip = Some 167772161\<rparr>,
            \<lparr>hostname = ''R2'', Neighbor.ip = Some 167772162\<rparr>}
   \<and> cdp_neighbor cdp_R1 = lldp_neighbor lldp_R1
   \<and> lldp_neighbor lldp_R1 \<noteq> lldp_neighbor lldp_R2"
proof -
  let ?c = "scripted (Some ''SW1#'') (\<lambda>cmds. [])"
  let ?S = "(attached ?c)\<lparr>cdp := [cdp_R1], lldp := [lldp_R2, lldp_R1]\<rparr>"
  have p1: "conn ?S = Some ?c" by (simp add: attached_def)
  have p2: "prompt_at ?c (clock ?c) = Some ''SW1#''" by (simp add: scripted_def)
  have p3: "set [cdp_R1, cdp_R1] = set (cdp ?S)" by simp
  have p4: "set [lldp_R1, lldp_R2] = set (lldp ?S)" by auto
  note t = neighbors_reconciled [OF p1 p2 p3 p4, of cdp_R1 lldp_R1 cdp_R1 lldp_R2]
  have n1: "cdp_neighbor cdp_R1 = \<lparr>hostname = ''R1'', Neighbor.ip = Some 167772161\<rparr>"
    by (simp add: cdp_neighbor_def cdp_R1_def)
  have n2: "lldp_neighbor lldp_R1 = \<lparr>hostname = ''R1'', Neighbor.ip = Some 167772161\<rparr>"
    by (simp add: lldp_neighbor_def lldp_R1_def)
  have n3: "lldp_neighbor lldp_R2 = \<lparr>hostname = ''R2'', Neighbor.ip = Some 167772162\<rparr>"
    by (simp add: lldp_neighbor_def lldp_R2_def)
  have a: "fst (neighbors ?S)
     = Inr {\<lparr>hostname = ''R1'', Neighbor.ip = Some 167772161\<rparr>,
            \<lparr>hostname = ''R2'', Neighbor.ip = Some 167772162\<rparr>}"
    using t by (auto simp: n1 n2 n3)
  have b: "fst (neighbors (?S\<lparr>cdp := [cdp_R1, cdp_R1], lldp := [lldp_R1, lldp_R2]\<rparr>))
     = fst (neighbors ?S)"
    using t by simp
  have c: "cdp_neighbor cdp_R1 = lldp_neighbor lldp_R1" by (simp add: n1 n2)
  have d: "lldp_neighbor lldp_R1 \<noteq> lldp_neighbor lldp_R2" by (simp add: n2 n3)
  from a b c d show ?thesis by simp
qed

section \<open>Calls without a live session\<close>

text \<open>
  C7. What the program does without a live session. With no session object, the
  methods that make the liveness check fail in it with \<^verbatim>\<open>AttributeError\<close>, and
  \<^verbatim>\<open>get_lldp\<close> fails its assertion. With a session whose \<^verbatim>\<open>find_prompt()\<close> returns
  \<^verbatim>\<open>None\<close>, \<^verbatim>\<open>get_lldp\<close> makes no check and returns the parsed entries.
\<close>

theorem missing_session_raises_other_errors:
  "fst (disconnect (CiscoSwitch_init a)) = Inl AttributeError
   \<and> fst (hostname_property (CiscoSwitch_init a)) = Inl AttributeError
   \<and> fst (neighbors (CiscoSwitch_init a)) = Inl AttributeError
   \<and> fst (get_cdp (CiscoSwitch_init a)) = Inl AttributeError
   \<and> fst (activate_cdp (CiscoSwitch_init a)) = Inl AttributeError
   \<and> fst (get_lldp (CiscoSwitch_init a)) = Inl AssertionError
   \<and> fst (get_lldp (attached (scripted None (lldp_reply lldp_detail_R1 lldp_brief_R1))))
       = Inr [lldp_R1]"
proof -
  have a: "conn (CiscoSwitch_init a) = None" "hostname_memo (CiscoSwitch_init a) = None"
    by (simp_all add: CiscoSwitch_init_def)
  have c: "check_connection (CiscoSwitch_init a) = (Inl AttributeError, CiscoSwitch_init a)"
    using a by (simp add: check_connection_def)
  have 1: "fst (disconnect (CiscoSwitch_init a)) = Inl AttributeError"
    by (simp add: disconnect_def c)
  have 2: "fst (hostname_property (CiscoSwitch_init a)) = Inl AttributeError"
    by (simp add: hostname_property_def query_hostname_def c a)
  have 3: "fst (neighbors (CiscoSwitch_init a)) = Inl AttributeError"
    by (simp add: neighbors_def c)
  have 4: "fst (get_cdp (CiscoSwitch_init a)) = Inl AttributeError"
    by (simp add: get_cdp_def c)
  have 5: "fst (activate_cdp (CiscoSwitch_init a)) = Inl AttributeError"
    by (simp add: activate_cdp_def config_command_def c)
  have 6: "fst (get_lldp (CiscoSwitch_init a)) = Inl AssertionError"
    by (simp add: get_lldp_def a)
  have 7: "fst (get_lldp (attached (scripted None (lldp_reply lldp_detail_R1 lldp_brief_R1))))
       = Inr [lldp_R1]"
    by code_simp
  show ?thesis using 1 2 3 4 5 6 7 by simp
qed

section \<open>The host name\<close>

text \<open>
  C8, as the program has it. On a live session that reports a prompt of 20 characters,
  the first read of \<open>hostname\<close> returns the prompt without its last character (19
  characters) after two queries of the session, and stores it; every later read, in any
  state that still holds the stored name, returns it and leaves the object and its
  session as they are. The cut to 16 characters is made by \<open>set_base_prompt\<close> on the
  session's base prompt, which \<open>hostname\<close> does not read.
\<close>

theorem hostname_strips_terminator_and_memoizes:
  assumes "conn self = Some c" and "\<not> truthy (hostname_memo self)"
    and "prompt_at c (clock c) = Some p" and "prompt_at c (Suc (clock c)) = Some p"
    and "length p = 20"
  shows "hostname_property self =
           (Inr (butlast p),
            self\<lparr>conn := Some (tick (tick c)), hostname_memo := Some (butlast p)\<rparr>)
         \<and> butlast p = take 19 p \<and> length (butlast p) = 19
         \<and> (\<forall>later. hostname_memo later = Some (butlast p) \<longrightarrow>
               hostname_property later = (Inr (butlast p), later))
         \<and> set_base_prompt p = take 16 p \<and> length (set_base_prompt p) = 16"
proof -
  have q: "query_hostname self =
           (Inr (butlast p),
            self\<lparr>conn := Some (tick (tick c)), hostname_memo := Some (butlast p)\<rparr>)"
    using assms(1,3,4)
    by (simp add: query_hostname_def check_connection_live find_prompt_def tick_def)
  have h: "hostname_property self = query_hostname self"
    using assms(2) by (cases "hostname_memo self") (simp_all add: hostname_property_def)
  have b: "butlast p = take 19 p" using assms(5) by (simp add: butlast_conv_take)
  have n: "butlast p \<noteq> []" using assms(5) by (cases p) auto
  show ?thesis using q h b n assms(5)
    by (simp add: hostname_property_def set_base_prompt_def)
qed

theorem hostname_strips_terminator_and_memoizes_witness:
  "hostname_property (attached (scripted (Some ''SwitchWithLongName1#'') (\<lambda>cmds. [])))
     = (Inr ''SwitchWithLongName1'',
        (attached (scripted (Some ''SwitchWithLongName1#'') (\<lambda>cmds. [])))
          \<lparr>conn := Some (tick (tick (scripted (Some ''SwitchWithLongName1#'') (\<lambda>cmds. [])))),
           hostname_memo := Some ''SwitchWithLongName1''\<rparr>)
   \<and> hostname_property
        ((attached (scripted None (\<lambda>cmds. [])))\<lparr>hostname_memo := Some ''SwitchWithLongName1''\<rparr>)
     = (Inr ''SwitchWithLongName1'',
        (attached (scripted None (\<lambda>cmds. [])))\<lparr>hostname_memo := Some ''SwitchWithLongName1''\<rparr>)"
  using hostname_strips_terminator_and_memoizes
    [of "attached (scripted (Some ''SwitchWithLongName1#'') (\<lambda>cmds. []))"
        "scripted (Some ''SwitchWithLongName1#'') (\<lambda>cmds. [])" "''SwitchWithLongName1#''"]
  by (simp add: attached_def scripted_def CiscoSwitch_init_def)

theorem hostname_truncation_counterexample:
  "length ''SwitchWithLongName1#'' = 20
   \<and> fst (hostname_property (attached (scripted (Some ''SwitchWithLongName1#'') (\<lambda>cmds. []))))
       = Inr ''SwitchWithLongName1''
   \<and> fst (hostname_property (attached (scripted (Some ''SwitchWithLongName1#'') (\<lambda>cmds. []))))
       \<noteq> Inr (take 16 ''SwitchWithLongName1#'')"
  by (simp add: hostname_property_def query_hostname_def check_connection_def find_prompt_def
      attached_def scripted_def CiscoSwitch_init_def tick_def)

section \<open>Facts about matching\<close>

text \<open>
  A repetition that succeeds hands some split of the text to its continuation; hence the
  groups of a match extend the groups closed before, and a group that has consumed a
  character is not empty when it closes.
\<close>

lemma greedy_SomeD:
  "greedy p k g s = Some r \<Longrightarrow> \<exists>g' s'. s = g' @ s' \<and> k (g @ g') s' = Some r"
proof (induction s arbitrary: g)
  case Nil
  then show ?case by simp
next
  case (Cons c cs)
  show ?case
  proof (cases "p c \<and> greedy p k (g @ [c]) cs \<noteq> None")
    case True
    then have "greedy p k (g @ [c]) cs = Some r" using Cons.prems by auto
    from Cons.IH [OF this] obtain g' s' where "cs = g' @ s'" "k ((g @ [c]) @ g') s' = Some r"
      by blast
    then have "c # cs = (c # g') @ s' \<and> k (g @ (c # g')) s' = Some r" by simp
    then show ?thesis by blast
  next
    case False
    then have "k g (c # cs) = Some r" using Cons.prems by (auto split: if_splits option.splits)
    then have "c # cs = [] @ (c # cs) \<and> k (g @ []) (c # cs) = Some r" by simp
    then show ?thesis by blast
  qed
qed

lemma lazy_SomeD:
  "lazy p k g s = Some r \<Longrightarrow> \<exists>g' s'. s = g' @ s' \<and> k (g @ g') s' = Some r"
proof (induction s arbitrary: g)
  case Nil
  then show ?case by simp
next
  case (Cons c cs)
  show ?case
  proof (cases "k g (c # cs)")
    case (Some r')
    then have "k g (c # cs) = Some r" using Cons.prems by simp
    then have "c # cs = [] @ (c # cs) \<and> k (g @ []) (c # cs) = Some r" by simp
    then show ?thesis by blast
  next
    case None
    then have "lazy p k (g @ [c]) cs = Some r" using Cons.prems by (auto split: if_splits)
    from Cons.IH [OF this] obtain g' s' where "cs = g' @ s'" "k ((g @ [c]) @ g') s' = Some r"
      by blast
    then have "c # cs = (c # g') @ s' \<and> k (g @ (c # g')) s' = Some r" by simp
    then show ?thesis by blast
  qed
qed

lemma rmatch_groups:
  "rmatch items done cur s = Some r \<Longrightarrow>
     prefix done r \<and>
     (closes_first items \<longrightarrow> (\<forall>g. cur = Some g \<longrightarrow> g \<noteq> [] \<longrightarrow>
        length done < length r \<and> r ! length done \<noteq> []))"
proof (induction items arbitrary: "done" cur s)
  case Nil
  then show ?case by simp
next
  case (Cons i items)
  show ?case
  proof (cases i)
    case (Lit l)
    then have "rmatch items done (grow cur l) (drop (length l) s) = Some r"
      using Cons.prems by (simp split: if_splits)
    from Cons.IH [OF this] show ?thesis using Lit by (cases cur) auto
  next
    case (Plus p)
    then obtain c cs where s: "s = c # cs" using Cons.prems by (cases s) auto
    then have "greedy p (\<lambda>g rest. rmatch items done (grow cur (c # g)) rest) [] cs = Some r"
      using Cons.prems Plus by (simp split: if_splits)
    from greedy_SomeD [OF this] obtain g' s' where
      "rmatch items done (grow cur (c # g')) s' = Some r" by auto
    from Cons.IH [OF this] show ?thesis using Plus by (cases cur) auto
  next
    case (LazyStar p)
    then have "lazy p (\<lambda>g rest. rmatch items done (grow cur g) rest) [] s = Some r"
      using Cons.prems by simp
    from lazy_SomeD [OF this] obtain g' s' where
      "rmatch items done (grow cur g') s' = Some r" by auto
    from Cons.IH [OF this] show ?thesis using LazyStar by (cases cur) auto
  next
    case GOpen
    then have "rmatch items done (Some []) s = Some r" using Cons.prems by simp
    from Cons.IH [OF this] show ?thesis using GOpen by simp
  next
    case GClose
    then have "rmatch items (done @ [close_group cur]) None s = Some r" using Cons.prems by simp
    from Cons.IH [OF this] have "prefix (done @ [close_group cur]) r" by simp
    then obtain zs where "r = done @ close_group cur # zs" by (auto simp: prefix_def)
    then show ?thesis using GClose by (auto simp: nth_append)
  qed
qed

lemma rmatch_open_plus:
  assumes "rmatch (GOpen # Plus p # items) done cur s = Some r" and "closes_first items"
  shows "length done < length r \<and> r ! length done \<noteq> []"
proof -
  obtain c cs where s: "s = c # cs" using assms(1) by (cases s) auto
  then have "greedy p (\<lambda>g rest. rmatch items done (grow (Some []) (c # g)) rest) [] cs = Some r"
    using assms(1) by (simp split: if_splits)
  from greedy_SomeD [OF this] obtain g' s' where
    "rmatch items done (Some (c # g')) s' = Some r" by auto
  from rmatch_groups [OF this] show ?thesis using assms(2) by simp
qed

lemma search_SomeD:
  "search pat s = Some r \<Longrightarrow> \<exists>t. suffix t s \<and> rmatch pat [] None t = Some r"
proof (induction s)
  case Nil
  then show ?case by auto
next
  case (Cons c cs)
  show ?case
  proof (cases "rmatch pat [] None (c # cs)")
    case None
    then have "search pat cs = Some r" using Cons.prems by simp
    from Cons.IH [OF this] show ?thesis by (auto intro: suffix_ConsI)
  next
    case (Some r')
    then have "rmatch pat [] None (c # cs) = Some r" using Cons.prems by simp
    then show ?thesis by blast
  qed
qed



section \<open>Facts about the pattern tables\<close>

text \<open>
  What \<^verbatim>\<open>matched\<close> holds under a name is the group of that name's pattern. The
  address patterns never capture an empty text, and wherever the management-address
  pattern matches, the entry-address pattern matches too, since its text ends the
  other's literal.
\<close>

lemma group1_nth: "0 < length r \<Longrightarrow> group1 r = r ! 0"
  by (cases r) auto

lemma group2_nth: "Suc 0 < length r \<Longrightarrow> group2 r = r ! Suc 0"
  by (cases r rule: group2.cases) auto

lemma search_lit_group_nonempty:
  assumes "search (Lit l # GOpen # Plus p # items) b = Some r" and "closes_first items"
  shows "group1 r \<noteq> []"
proof -
  from search_SomeD [OF assms(1)] obtain t where
    "rmatch (Lit l # GOpen # Plus p # items) [] None t = Some r" by blast
  then have "rmatch (GOpen # Plus p # items) [] None (drop (length l) t) = Some r"
    by (simp split: if_splits)
  from rmatch_open_plus [OF this assms(2)] show ?thesis by (simp add: group1_nth)
qed

lemma map_of_apply_patterns:
  "distinct (map fst ps) \<Longrightarrow>
   map_of (apply_patterns ps b) k =
     (case map_of ps k of None \<Rightarrow> None | Some pat \<Rightarrow> map_option group1 (search pat b))"
proof (induction ps)
  case Nil
  then show ?case by simp
next
  case (Cons kp ps)
  obtain k' pat where kp: "kp = (k', pat)" by (cases kp)
  have d: "k' \<notin> fst ` set ps" "distinct (map fst ps)" using Cons.prems kp by auto
  then have n: "map_of ps k' = None" by (simp add: map_of_eq_None_iff)
  show ?case using Cons.IH [OF d(2)] kp n
    by (cases "search pat b") auto
qed


lemma distinct_lldp_patterns: "distinct (map fst lldp_patterns)"
  by (simp add: lldp_patterns_def)



lemma lldp_matched_management_ip:
  "map_of (apply_patterns lldp_patterns b) ''management_ip'' =
     map_option group1 (search (Lit ''IP: '' # GOpen # dotted_quad @ [GClose]) b)"
  unfolding map_of_apply_patterns [OF distinct_lldp_patterns]
  by (simp add: lldp_patterns_def)

lemma quad_group_nonempty:
  assumes "search (Lit l # GOpen # dotted_quad @ [GClose]) b = Some r"
  shows "group1 r \<noteq> []"
proof -
  have "search (Lit l # GOpen # Plus is_digit #
           [Lit ''.'', Plus is_digit, Lit ''.'', Plus is_digit, Lit ''.'', Plus is_digit, GClose]) b
        = Some r"
    using assms by (simp add: dotted_quad_def)
  from search_lit_group_nonempty [OF this] show ?thesis by simp
qed



lemma lldp_management_ip_nonempty:
  "map_of (apply_patterns lldp_patterns b) ''management_ip'' = Some s \<Longrightarrow> s \<noteq> []"
  unfolding lldp_matched_management_ip by (auto dest: quad_group_nonempty)



lemma brief_groups_nonempty:
  assumes "search brief_pattern line = Some r"
  shows "group1 r \<noteq> [] \<and> group2 r \<noteq> []"
proof -
  from search_SomeD [OF assms] obtain t where
    t: "rmatch brief_pattern [] None t = Some r" by blast
  then have a: "0 < length r \<and> r ! 0 \<noteq> []"
    using rmatch_open_plus [of non_space "[GClose, Plus is_space, GOpen, Plus non_space, GClose]" "[]" None t r]
    by (simp add: brief_pattern_def)
  from t obtain c cs where tc: "t = c # cs" by (cases t) (auto simp: brief_pattern_def)
  from t tc have "greedy non_space
      (\<lambda>g. rmatch [GClose, Plus is_space, GOpen, Plus non_space, GClose] [] (Some (c # g)))
      [] cs = Some r"
    by (simp add: brief_pattern_def split: if_splits)
  from greedy_SomeD [OF this] obtain g' s' where
    "rmatch [GClose, Plus is_space, GOpen, Plus non_space, GClose] [] (Some (c # g')) s' = Some r"
    by auto
  then have s': "rmatch [Plus is_space, GOpen, Plus non_space, GClose] [c # g'] None s' = Some r"
    by simp
  then obtain d ds where "s' = d # ds" by (cases s') auto
  with s' have "greedy is_space
      (\<lambda>g. rmatch [GOpen, Plus non_space, GClose] [c # g'] None) [] ds = Some r"
    by (simp split: if_splits)
  from greedy_SomeD [OF this] obtain g2 s2 where
    "rmatch (GOpen # Plus non_space # [GClose]) [c # g'] None s2 = Some r" by auto
  from rmatch_open_plus [OF this] have "Suc 0 < length r \<and> r ! Suc 0 \<noteq> []" by simp
  then show ?thesis using a by (simp add: group1_nth group2_nth)
qed

section \<open>Sample CDP blocks\<close>

definition cdp_block_R1 :: string where
  "cdp_block_R1 = join CRLF
     [''Device ID: R1'',
      ''Entry address(es): '',
      ''  IP address: 10.0.0.7'',
      ''Platform: cisco WS-C2960,  Capabilities: Switch IGMP '',
      ''Interface: Gi0/1,  Port ID (outgoing port): Gi0/2'',
      ''Holdtime : 140 sec'',
      ''Duplex: full'',
      ''Management address(es): '',
      ''  IP address: 10.0.0.1'']"



definition cdp_block_partial :: string where
  "cdp_block_partial = join CRLF
     [''Device ID: R5'',
      ''Platform: cisco WS-C2960,  Capabilities: Switch IGMP '',
      ''Duplex: full'']"


text \<open>
  The response of a device that reports the given blocks: before each block its line of
  dashes, and every line ended by a bare line feed, as the session returns it.
\<close>

definition cdp_detail_of :: "string list \<Rightarrow> string" where
  "cdp_detail_of blocks =
     concat (map (\<lambda>b. ''-------------------------'' @ [LF] @ filter (\<lambda>c. c \<noteq> CR) b @ [LF])
                 blocks)"

section \<open>One CDP block\<close>


lemma address_if_None [simp]: "address_if None v = Inr PNone"
  by (simp add: address_if_def)

lemma address_if_Some:
  "s \<noteq> [] \<Longrightarrow> address_if (Some s) (Some t) =
     (case IPv4Address t of Inl e \<Rightarrow> Inl e | Inr a \<Rightarrow> Inr (PAddr a))"
  by (simp add: address_if_def)

















section \<open>LLDP detail records\<close>

text \<open>
  The dictionary the first loop of \<^verbatim>\<open>get_lldp\<close> keeps for an accepted block: the four
  names of the pattern table, in its order, the last one holding a parsed address.
\<close>

fun detail_record :: "kwargs \<Rightarrow> bool" where
  "detail_record [(k1, PStr c), (k2, PStr p), (k3, PStr s), (k4, PAddr a)] =
     (k1 = ''chassis_id'' \<and> k2 = ''port_id'' \<and> k3 = ''system_name'' \<and> k4 = ''management_ip'')"
| "detail_record item = False"

lemma detail_recordE:
  assumes "detail_record item"
  obtains c p s a where
    "item = [(''chassis_id'', PStr c), (''port_id'', PStr p), (''system_name'', PStr s),
             (''management_ip'', PAddr a)]"
  using assms by (cases item rule: detail_record.cases) auto

lemma lldp_matched_full:
  assumes "\<not> length (apply_patterns lldp_patterns b) < 4"
  shows "\<exists>c p s m. apply_patterns lldp_patterns b =
           [(''chassis_id'', c), (''port_id'', p), (''system_name'', s), (''management_ip'', m)]"
  using assms by (auto simp: lldp_patterns_def split: option.splits)

lemma lldp_block_full:
  assumes "apply_patterns lldp_patterns b =
           [(''chassis_id'', c), (''port_id'', p), (''system_name'', s), (''management_ip'', m)]"
  shows "lldp_block b =
           (case IPv4Address m of
              Inl e \<Rightarrow> Inl e
            | Inr a \<Rightarrow> Inr (Some [(''chassis_id'', PStr c), (''port_id'', PStr p),
                                 (''system_name'', PStr s), (''management_ip'', PAddr a)]))"
proof -
  have "map_of (apply_patterns lldp_patterns b) ''management_ip'' = Some m"
    by (simp add: assms)
  then have "m \<noteq> []" by (rule lldp_management_ip_nonempty)
  then show ?thesis
    by (simp add: lldp_block_def assms address_if_Some as_kwargs_def split: sum.splits)
qed

lemma lldp_block_SomeD:
  assumes "lldp_block b = Inr (Some item)"
  shows "detail_record item"
proof -
  from assms have "\<not> length (apply_patterns lldp_patterns b) < 4"
    by (auto simp: lldp_block_def Let_def split: if_splits)
  from lldp_matched_full [OF this] obtain c p s m where
    "apply_patterns lldp_patterns b =
       [(''chassis_id'', c), (''port_id'', p), (''system_name'', s), (''management_ip'', m)]"
    by blast
  from lldp_block_full [OF this] assms show ?thesis by (auto split: sum.splits)
qed

lemma lldp_loop_records:
  "lldp_loop blocks acc = Inr items \<Longrightarrow> list_all detail_record acc \<Longrightarrow>
   list_all detail_record items"
proof (induction blocks arbitrary: acc)
  case Nil
  then show ?case by simp
next
  case (Cons b blocks)
  show ?case
  proof (cases "lldp_block b")
    case (Inl e)
    then show ?thesis using Cons.prems by simp
  next
    case (Inr r)
    show ?thesis
    proof (cases r)
      case None
      then show ?thesis using Cons Inr by simp
    next
      case (Some item)
      then have "detail_record item" using Inr by (simp add: lldp_block_SomeD)
      then have "list_all detail_record (acc @ [item])" using Cons.prems(2) by simp
      moreover have "lldp_loop blocks (acc @ [item]) = Inr items"
        using Cons.prems(1) Inr Some by simp
      ultimately show ?thesis by (rule Cons.IH [rotated])
    qed
  qed
qed

lemma local_intf_mapping_nonempty:
  "map_of (local_intf_mapping rows m) k = Some v \<Longrightarrow>
   (\<And>k' v'. map_of m k' = Some v' \<Longrightarrow> v' \<noteq> []) \<Longrightarrow> v \<noteq> []"
proof (induction rows arbitrary: m)
  case Nil
  then show ?case by simp
next
  case (Cons line rows)
  show ?case
  proof (cases "search brief_pattern line")
    case None
    then show ?thesis using Cons by simp
  next
    case (Some r)
    then have g: "group2 r \<noteq> []" by (simp add: brief_groups_nonempty)
    have "map_of (local_intf_mapping rows (AList.update (group1 r) (group2 r) m)) k = Some v"
      using Cons.prems(1) Some by simp
    then show ?thesis
    proof (rule Cons.IH)
      fix k' v'
      assume "map_of (AList.update (group1 r) (group2 r) m) k' = Some v'"
      then show "v' \<noteq> []" using g Cons.prems(2) by (auto simp: update_conv' split: if_splits)
    qed
  qed
qed

lemma enrich_record:
  assumes "item = [(''chassis_id'', PStr c), (''port_id'', PStr p), (''system_name'', PStr s),
                   (''management_ip'', PAddr a)]"
  shows "enrich m item =
           (case map_of m s of
              None \<Rightarrow> item
            | Some v \<Rightarrow> if v \<noteq> [] then item @ [(''interface'', PStr v)] else item)"
  by (simp add: enrich_def assms split: option.splits)

lemma CiscoLLDP_init_record:
  "CiscoLLDP_init [(''chassis_id'', PStr c), (''port_id'', PStr p), (''system_name'', PStr s),
                   (''management_ip'', PAddr a)] = Inl ValidationError"
  "CiscoLLDP_init [(''chassis_id'', PStr c), (''port_id'', PStr p), (''system_name'', PStr s),
                   (''management_ip'', PAddr a), (''interface'', PStr v)]
     = Inr \<lparr>chassis_id = c, port_id = p, CiscoLLDP.interface = v, system_name = s,
            CiscoLLDP.management_ip = Some a\<rparr>"
  by (simp_all add: CiscoLLDP_init_def str_field_def addr_field_def)

lemma CiscoLLDP_init_enriched:
  assumes "detail_record item" and "CiscoLLDP_init (enrich m item) = Inr entry"
  shows "CiscoLLDP.management_ip entry \<noteq> None"
proof -
  from assms(1) obtain c p s a where
    i: "item = [(''chassis_id'', PStr c), (''port_id'', PStr p), (''system_name'', PStr s),
             (''management_ip'', PAddr a)]"
    by (rule detail_recordE)
  show ?thesis using assms(2) unfolding enrich_record [OF i]
    by (auto simp: i CiscoLLDP_init_record split: option.splits if_splits)
qed

lemma build_lldp_management:
  "build_lldp (map (enrich m) items) = Inr entries \<Longrightarrow> list_all detail_record items \<Longrightarrow>
   list_all (\<lambda>e. CiscoLLDP.management_ip e \<noteq> None) entries"
proof (induction items arbitrary: entries)
  case Nil
  then show ?case by simp
next
  case (Cons item items)
  from Cons.prems(1) obtain entry rest where
    e: "CiscoLLDP_init (enrich m item) = Inr entry" and
    r: "build_lldp (map (enrich m) items) = Inr rest" and
    es: "entries = entry # rest"
    by (auto split: sum.splits)
  have "detail_record item" using Cons.prems(2) by simp
  then have "CiscoLLDP.management_ip entry \<noteq> None"
    using e by (rule CiscoLLDP_init_enriched)
  moreover have "list_all (\<lambda>e. CiscoLLDP.management_ip e \<noteq> None) rest"
    using Cons.IH [OF r] Cons.prems(2) by simp
  ultimately show ?case using es by simp
qed

lemma get_lldp_InrD:
  assumes "get_lldp self = (Inr entries, self')"
  shows "\<exists>out rows detail_result.
           lldp_loop (lldp_blocks out) [] = Inr detail_result
           \<and> build_lldp (map (enrich (local_intf_mapping rows [])) detail_result) = Inr entries"
proof -
  from assms obtain c where c: "conn self = Some c"
    by (cases "conn self") (auto simp: get_lldp_def)
  let ?out = "output_at c (clock c) [''show lldp neighbors detail'']"
  from assms c obtain detail_result where
    l: "lldp_loop (lldp_blocks ?out) [] = Inr detail_result"
    by (cases "lldp_loop (lldp_blocks ?out) []")
       (auto simp: get_lldp_def send_multiline_def Let_def)
  from assms c l obtain rows where
    "build_lldp (map (enrich (local_intf_mapping rows [])) detail_result) = Inr entries"
    by (auto simp: get_lldp_def send_multiline_def Let_def
        split: option.splits prod.splits sum.splits if_splits)
  with l show ?thesis by blast
qed

lemma CiscoLLDP_init_error: "CiscoLLDP_init kw = Inl e \<Longrightarrow> e = ValidationError"
  by (auto simp: CiscoLLDP_init_def split: option.splits)


lemma build_lldp_unmatched:
  "item \<in> set items \<Longrightarrow> CiscoLLDP_init (enrich m item) = Inl ValidationError \<Longrightarrow>
   build_lldp (map (enrich m) items) = Inl ValidationError"
proof (induction items)
  case Nil
  then show ?case by simp
next
  case (Cons x items)
  show ?case
  proof (cases "CiscoLLDP_init (enrich m x)")
    case (Inl e)
    then show ?thesis using CiscoLLDP_init_error [OF Inl] by simp
  next
    case (Inr entry)
    then have "item \<in> set items" using Cons.prems by auto
    from Cons.IH [OF this Cons.prems(2)] show ?thesis using Inr by simp
  qed
qed

lemma enrich_overrides:
  assumes "map_of item ''system_name'' = Some (PStr s)" and "map_of m s = Some v" and "v \<noteq> []"
  shows "map_of (enrich m item) ''interface'' = Some (PStr v)"
  using assms by (simp add: enrich_def update_conv')

text \<open>
  C10. Every entry that \<^verbatim>\<open>get_lldp\<close> returns has a management address, and so has the
  neighbour made of it: the table has four patterns, a block is kept only when all four
  matched, and the matched address text is never empty, so it is always parsed.
\<close>

theorem lldp_entries_have_management_ip:
  assumes "get_lldp self = (Inr entries, self')" and "entry \<in> set entries"
  shows "CiscoLLDP.management_ip entry \<noteq> None
         \<and> Neighbor.ip (lldp_neighbor entry) \<noteq> None
         \<and> map fst lldp_patterns = [''chassis_id'', ''port_id'', ''system_name'', ''management_ip'']"
proof -
  from get_lldp_InrD [OF assms(1)] obtain out rows detail_result where
    l: "lldp_loop (lldp_blocks out) [] = Inr detail_result" and
    b: "build_lldp (map (enrich (local_intf_mapping rows [])) detail_result) = Inr entries"
    by blast
  have "list_all detail_record detail_result" using lldp_loop_records [OF l] by simp
  from build_lldp_management [OF b this] assms(2) show ?thesis
    by (simp add: list_all_iff lldp_patterns_def lldp_neighbor_def)
qed

theorem lldp_entries_have_management_ip_witness:
  "fst (get_lldp (attached (scripted (Some ''SW1#'') (lldp_reply lldp_detail_R1 lldp_brief_R1))))
     = Inr [lldp_R1]
   \<and> CiscoLLDP.management_ip lldp_R1 = Some 167772161
   \<and> Neighbor.ip (lldp_neighbor lldp_R1) \<noteq> None"
proof -
  let ?S = "attached (scripted (Some ''SW1#'') (lldp_reply lldp_detail_R1 lldp_brief_R1))"
  have f: "fst (get_lldp ?S) = Inr [lldp_R1]" by code_simp
  then have "get_lldp ?S = (Inr [lldp_R1], snd (get_lldp ?S))" by (metis prod.collapse)
  from lldp_entries_have_management_ip [OF this, of lldp_R1] f show ?thesis
    by (simp add: lldp_R1_def)
qed

text \<open>
  C5, as the program has it. A record of the detail parse has a system name and no
  interface. When the system name is a key of the mapping built from the brief listing,
  the interface is set to the mapped value (whatever was there before), and the record
  becomes an entry with that interface. When it is not, the record stays as it was, and
  building the entries fails on it, since an entry requires an interface.
\<close>

theorem lldp_interface_enrichment:
  assumes "lldp_block block = Inr (Some item)" and "m = local_intf_mapping rows []"
  shows "\<exists>s. map_of item ''system_name'' = Some (PStr s) \<and> map_of item ''interface'' = None
     \<and> (\<forall>v. map_of m s = Some v \<longrightarrow>
           map_of (enrich m item) ''interface'' = Some (PStr v)
           \<and> (\<exists>entry. build_lldp [enrich m item] = Inr [entry]
                 \<and> CiscoLLDP.interface entry = v \<and> system_name entry = s))
     \<and> (map_of m s = None \<longrightarrow>
           enrich m item = item
           \<and> (\<forall>items. item \<in> set items \<longrightarrow>
                 build_lldp (map (enrich m) items) = Inl ValidationError))
     \<and> (\<forall>other v. map_of other ''system_name'' = Some (PStr s) \<longrightarrow> map_of m s = Some v \<longrightarrow>
           map_of (enrich m other) ''interface'' = Some (PStr v))"
proof -
  from lldp_block_SomeD [OF assms(1)] obtain c p s a where
    i: "item = [(''chassis_id'', PStr c), (''port_id'', PStr p), (''system_name'', PStr s),
             (''management_ip'', PAddr a)]"
    by (rule detail_recordE)
  have ne: "\<And>v. map_of m s = Some v \<Longrightarrow> v \<noteq> []"
    unfolding assms(2) by (erule local_intf_mapping_nonempty) simp
  have 1: "map_of item ''system_name'' = Some (PStr s)" "map_of item ''interface'' = None"
    by (simp_all add: i)
  have 2: "map_of (enrich m item) ''interface'' = Some (PStr v)
           \<and> (\<exists>entry. build_lldp [enrich m item] = Inr [entry]
                 \<and> CiscoLLDP.interface entry = v \<and> system_name entry = s)"
    if "map_of m s = Some v" for v
    using that ne [OF that] unfolding enrich_record [OF i]
    by (simp add: i CiscoLLDP_init_record)
  have 3: "enrich m item = item
           \<and> (\<forall>items. item \<in> set items \<longrightarrow>
                 build_lldp (map (enrich m) items) = Inl ValidationError)"
    if n: "map_of m s = None"
  proof -
    have e: "enrich m item = item" using n unfolding enrich_record [OF i] by simp
    have "CiscoLLDP_init item = Inl ValidationError"
      unfolding i by (rule CiscoLLDP_init_record)
    then have v: "CiscoLLDP_init (enrich m item) = Inl ValidationError"
      by (simp only: e)
    show ?thesis using e build_lldp_unmatched [OF _ v] by simp
  qed
  have 4: "map_of (enrich m other) ''interface'' = Some (PStr v)"
    if "map_of other ''system_name'' = Some (PStr s)" "map_of m s = Some v" for other v
    using that ne [OF that(2)] by (rule enrich_overrides)
  show ?thesis
  proof (rule exI [of _ s], intro conjI allI impI)
    show "map_of item ''system_name'' = Some (PStr s)" by (rule 1)
    show "map_of item ''interface'' = None" by (rule 1)
  next
    fix v assume "map_of m s = Some v"
    from 2 [OF this]
    show "map_of (enrich m item) ''interface'' = Some (PStr v)"
      and "\<exists>entry. build_lldp [enrich m item] = Inr [entry]
             \<and> CiscoLLDP.interface entry = v \<and> system_name entry = s"
      by simp_all
  next
    assume n: "map_of m s = None"
    from 3 [OF n] show "enrich m item = item" by simp
    fix items assume "item \<in> set items"
    with 3 [OF n] show "build_lldp (map (enrich m) items) = Inl ValidationError" by simp
  next
    fix other v
    assume "map_of other ''system_name'' = Some (PStr s)" "map_of m s = Some v"
    then show "map_of (enrich m other) ''interface'' = Some (PStr v)" by (rule 4)
  qed
qed

theorem lldp_interface_enrichment_witness:
  "local_intf_mapping [''R1    Gi0/1''] [] = [(''R1'', ''Gi0/1'')]
   \<and> map_of (enrich [(''R1'', ''Gi0/1'')]
        [(''chassis_id'', PStr ''aabb.cc00.0100''), (''port_id'', PStr ''Gi0/2''),
         (''system_name'', PStr ''R1''), (''management_ip'', PAddr 167772161)]) ''interface''
       = Some (PStr ''Gi0/1'')
   \<and> map_of (enrich [(''R1'', ''Gi0/1'')]
        [(''interface'', PStr ''Te1/1''), (''system_name'', PStr ''R1'')]) ''interface''
       = Some (PStr ''Gi0/1'')"
proof -
  let ?b = "join CRLF [''Chassis id: aabb.cc00.0100'', ''Port id: Gi0/2'', ''System Name: R1'',
                       ''    IP: 10.0.0.1'']"
  let ?item = "[(''chassis_id'', PStr ''aabb.cc00.0100''), (''port_id'', PStr ''Gi0/2''),
         (''system_name'', PStr ''R1''), (''management_ip'', PAddr 167772161)]"
  have a: "lldp_block ?b = Inr (Some ?item)" by code_simp
  have b: "local_intf_mapping [''R1    Gi0/1''] [] = [(''R1'', ''Gi0/1'')]" by code_simp
  from lldp_interface_enrichment [OF a b [symmetric]]
  have "map_of (enrich [(''R1'', ''Gi0/1'')] ?item) ''interface'' = Some (PStr ''Gi0/1'')
      \<and> map_of (enrich [(''R1'', ''Gi0/1'')]
            [(''interface'', PStr ''Te1/1''), (''system_name'', PStr ''R1'')]) ''interface''
          = Some (PStr ''Gi0/1'')"
    by auto
  with b show ?thesis by simp
qed

theorem lldp_unmatched_record_counterexample:
  "fst (get_lldp (attached (scripted (Some ''SW1#'') (lldp_reply lldp_detail_R1 []))))
     = Inl ValidationError"
  by code_simp

section \<open>Invalid addresses\<close>



definition fading :: "string \<Rightarrow> session" where
  "fading out = \<lparr>clock = 0, prompt_at = (\<lambda>n. if n = 0 then Some ''SW1#'' else None),
                  output_at = (\<lambda>n cmds. out)\<rparr>"






section \<open>\<^verbatim>\<open>get_cdp\<close> as a whole\<close>

text \<open>
  The scan of the rows for the indicator is a scan of the whole response, since the
  indicator has no line feed in it.
\<close>

lemma contains_sublist: "contains n s = sublist n s"
  by (induction s) (auto simp: sublist_Cons_right)

lemma sublist_across_separator:
  assumes "c \<notin> set n"
  shows "sublist n (a @ c # b) = (sublist n a \<or> sublist n b)"
proof
  assume "sublist n (a @ c # b)"
  then obtain ps ss where e: "a @ c # b = ps @ n @ ss" by (auto simp: sublist_def)
  then show "sublist n a \<or> sublist n b"
  proof (cases "length (ps @ n) \<le> length a")
    case True
    from e have "(ps @ n) @ ss = a @ (c # b)" by simp
    then obtain us where
      "(ps @ n = a @ us \<and> us @ ss = c # b) \<or> ((ps @ n) @ us = a \<and> ss = us @ c # b)"
      unfolding append_eq_append_conv2 by blast
    then have "\<exists>us. a = ps @ n @ us"
    proof
      assume u: "ps @ n = a @ us \<and> us @ ss = c # b"
      then have "length (ps @ n) = length (a @ us)" by simp
      then have "us = []" using True by simp
      then have "a = ps @ n @ []" using u by simp
      then show ?thesis by blast
    next
      assume "(ps @ n) @ us = a \<and> ss = us @ c # b"
      then have "a = ps @ n @ us" by simp
      then show ?thesis by blast
    qed
    then have "sublist n a" unfolding sublist_def by blast
    then show ?thesis ..
  next
    case False
    have "length a < length ps"
    proof (rule ccontr)
      assume "\<not> length a < length ps"
      then have l: "length ps \<le> length a" "length a < length ps + length n"
        using False by auto
      have "(a @ c # b) ! length a = c" by simp
      moreover have k: "length a - length ps < length n" using l by simp
      moreover have "(ps @ n @ ss) ! length a = (n @ ss) ! (length a - length ps)"
        using l(1) by (simp add: nth_append)
      moreover have "(n @ ss) ! (length a - length ps) = n ! (length a - length ps)"
        using k by (simp add: nth_append)
      ultimately have "c = n ! (length a - length ps)" using e by simp
      then have "c \<in> set n" using k by (metis nth_mem)
      then show False using assms by simp
    qed
    then have "drop (Suc (length a)) (a @ c # b) = b"
      "drop (Suc (length a)) (ps @ n @ ss) = drop (Suc (length a)) ps @ n @ ss"
      by simp_all
    then have "b = drop (Suc (length a)) ps @ n @ ss" using e by simp
    then have "sublist n b" unfolding sublist_def by blast
    then show ?thesis ..
  qed
next
  assume "sublist n a \<or> sublist n b"
  then show "sublist n (a @ c # b)"
  proof
    assume "sublist n a"
    then obtain ps ss where "a = ps @ n @ ss" by (auto simp: sublist_def)
    then have "a @ c # b = ps @ n @ (ss @ c # b)" by simp
    then show ?thesis unfolding sublist_def by blast
  next
    assume "sublist n b"
    then obtain ps ss where "b = ps @ n @ ss" by (auto simp: sublist_def)
    then have "a @ c # b = (a @ c # ps) @ n @ ss" by simp
    then show ?thesis unfolding sublist_def by blast
  qed
qed

lemma split_acc_contains:
  "c \<notin> set n \<Longrightarrow> list_ex (contains n) (split_acc [c] acc s) = contains n (acc @ s)"
proof (induction s arbitrary: acc)
  case Nil
  then show ?case by simp
next
  case (Cons x xs)
  show ?case
  proof (cases "x = c")
    case True
    then show ?thesis
      using Cons.IH [OF Cons.prems, of "[]"] Cons.prems
      by (simp add: contains_sublist sublist_across_separator)
  next
    case False
    then show ?thesis using Cons.IH [OF Cons.prems, of "acc @ [x]"] by simp
  qed
qed

lemma rows_contain_indicator:
  "list_ex (contains ''CDP is not enabled'') (split out [LF]) = contains ''CDP is not enabled'' out"
  unfolding split_def using split_acc_contains [of LF "''CDP is not enabled''" "[]" out]
  by (simp add: LF_def)

lemma hostname_property_live:
  assumes "conn s = Some c" and "\<And>n. prompt_at c n \<noteq> None"
  shows "\<exists>h s'. hostname_property s = (Inr h, s') \<and> cdp s' = cdp s \<and> lldp s' = lldp s"
proof -
  from assms(2) obtain p where p: "prompt_at c (clock c) = Some p" by blast
  from assms(2) obtain q where q: "prompt_at c (Suc (clock c)) = Some q" by blast
  have "query_hostname s =
          (Inr (butlast q), s\<lparr>conn := Some (tick (tick c)), hostname_memo := Some (butlast q)\<rparr>)"
    using assms(1) p q
    by (simp add: query_hostname_def check_connection_live find_prompt_def tick_def)
  then show ?thesis
    by (cases "hostname_memo s") (auto simp: hostname_property_def)
qed

text \<open>
  C6, as the program has it. On a live session: if the response contains
  \<^verbatim>\<open>CDP is not enabled\<close>, \<^verbatim>\<open>get_cdp\<close> raises \<^verbatim>\<open>CDPNotEnabledError\<close> and the stored
  list is as before. Otherwise, when the loop over the blocks ends with a list of entries,
  that list replaces the stored one and is returned; when it is empty this needs the host
  name for the message, which is there when it is cached or the session keeps reporting a
  prompt. When the loop raises, the exception is the outcome and the stored list is as
  before.
\<close>

theorem get_cdp_disabled_or_replaces:
  assumes "conn self = Some c" and "prompt_at c (clock c) = Some p"
    and "out = output_at c (Suc (clock c)) [''show cdp neighbors detail'']"
    and "self2 = self\<lparr>conn := Some (tick (tick c))\<rparr>"
  shows "(contains ''CDP is not enabled'' out \<longrightarrow>
            get_cdp self = (Inl CDPNotEnabledError, self2) \<and> cdp self2 = cdp self)
       \<and> (\<not> contains ''CDP is not enabled'' out \<longrightarrow>
            (\<forall>result. cdp_loop (cdp_blocks out) [] = Inr result \<and> result \<noteq> [] \<longrightarrow>
               get_cdp self = (Inr result, self2\<lparr>cdp := result\<rparr>))
          \<and> (\<forall>h self3. cdp_loop (cdp_blocks out) [] = Inr []
                 \<and> hostname_property self2 = (Inr h, self3) \<longrightarrow>
               get_cdp self = (Inr [], self3\<lparr>cdp := []\<rparr>))
          \<and> (cdp_loop (cdp_blocks out) [] = Inr [] \<and> (\<forall>n. prompt_at c n \<noteq> None) \<longrightarrow>
               fst (get_cdp self) = Inr [] \<and> cdp (snd (get_cdp self)) = [])
          \<and> (\<forall>e. cdp_loop (cdp_blocks out) [] = Inl e \<longrightarrow>
               get_cdp self = (Inl e, self2) \<and> cdp self2 = cdp self))"
proof -
  let ?needle = "''CDP is not enabled''"
  have c1: "check_connection self = (Inr (), self\<lparr>conn := Some (tick c)\<rparr>)"
    using assms(1,2) by (rule check_connection_live)
  have s: "send_multiline (tick c) [''show cdp neighbors detail''] = (out, tick (tick c))"
    by (simp add: send_multiline_def tick_def assms(3))
  have g: "get_cdp self =
      (if contains ?needle out then (Inl CDPNotEnabledError, self2)
       else (case cdp_loop (cdp_blocks out) [] of
               Inl e \<Rightarrow> (Inl e, self2)
             | Inr result \<Rightarrow>
                 if result = []
                 then (case hostname_property self2 of
                         (Inl e, self3) \<Rightarrow> (Inl e, self3)
                       | (Inr h, self3) \<Rightarrow> (Inr result, self3\<lparr>cdp := result\<rparr>))
                 else (Inr result, self2\<lparr>cdp := result\<rparr>)))"
    unfolding assms(4) by (simp add: get_cdp_def c1 s rows_contain_indicator Let_def)
  have u: "cdp self2 = cdp self" by (simp add: assms(4))
  have z: "fst (get_cdp self) = Inr [] \<and> cdp (snd (get_cdp self)) = []"
    if n: "\<not> contains ?needle out" and l: "cdp_loop (cdp_blocks out) [] = Inr []"
      and live: "\<forall>n. prompt_at c n \<noteq> None"
  proof -
    have "conn self2 = Some (tick (tick c))" by (simp add: assms(4))
    moreover have "\<And>n. prompt_at (tick (tick c)) n \<noteq> None" using live by (simp add: tick_def)
    ultimately obtain h s' where "hostname_property self2 = (Inr h, s')"
      using hostname_property_live by blast
    then show ?thesis using n l by (simp add: g)
  qed
  show ?thesis
  proof (intro conjI impI allI)
    assume "contains ?needle out"
    then show "get_cdp self = (Inl CDPNotEnabledError, self2)" by (simp add: g)
    show "cdp self2 = cdp self" by (rule u)
  next
    fix result
    assume "\<not> contains ?needle out" "cdp_loop (cdp_blocks out) [] = Inr result \<and> result \<noteq> []"
    then show "get_cdp self = (Inr result, self2\<lparr>cdp := result\<rparr>)" by (simp add: g)
  next
    fix h self3
    assume "\<not> contains ?needle out"
      "cdp_loop (cdp_blocks out) [] = Inr [] \<and> hostname_property self2 = (Inr h, self3)"
    then show "get_cdp self = (Inr [], self3\<lparr>cdp := []\<rparr>)" by (simp add: g)
  next
    assume a: "\<not> contains ?needle out"
      "cdp_loop (cdp_blocks out) [] = Inr [] \<and> (\<forall>n. prompt_at c n \<noteq> None)"
    from z [OF a(1)] a(2) show "fst (get_cdp self) = Inr []" by blast
    from z [OF a(1)] a(2) show "cdp (snd (get_cdp self)) = []" by blast
  next
    fix e
    assume "\<not> contains ?needle out" "cdp_loop (cdp_blocks out) [] = Inl e"
    then show "get_cdp self = (Inl e, self2)" by (simp add: g)
    show "cdp self2 = cdp self" by (rule u)
  qed
qed

theorem get_cdp_disabled_or_replaces_witness:
  "fst (get_cdp ((attached (scripted (Some ''SW1#'') (\<lambda>cmds. ''% CDP is not enabled'')))
                   \<lparr>cdp := [cdp_R1]\<rparr>)) = Inl CDPNotEnabledError
   \<and> cdp (snd (get_cdp ((attached (scripted (Some ''SW1#'') (\<lambda>cmds. ''% CDP is not enabled'')))
                   \<lparr>cdp := [cdp_R1]\<rparr>))) = [cdp_R1]
   \<and> fst (get_cdp (attached (scripted (Some ''SW1#'') (\<lambda>cmds. cdp_detail_of [cdp_block_R1]))))
       = Inr [cdp_R1]
   \<and> cdp (snd (get_cdp (attached (scripted (Some ''SW1#'')
                            (\<lambda>cmds. cdp_detail_of [cdp_block_R1]))))) = [cdp_R1]
   \<and> fst (get_cdp ((attached (scripted (Some ''SW1#'') (\<lambda>cmds. [])))\<lparr>cdp := [cdp_R1]\<rparr>))
       = Inr []
   \<and> cdp (snd (get_cdp ((attached (scripted (Some ''SW1#'') (\<lambda>cmds. [])))
                           \<lparr>cdp := [cdp_R1]\<rparr>))) = []"
proof -
  let ?d = "scripted (Some ''SW1#'') (\<lambda>cmds. ''% CDP is not enabled'')"
  let ?k = "scripted (Some ''SW1#'') (\<lambda>cmds. cdp_detail_of [cdp_block_R1])"
  let ?e = "scripted (Some ''SW1#'') (\<lambda>cmds. [])"
  have p: "\<And>r. prompt_at (scripted (Some ''SW1#'') r) (clock (scripted (Some ''SW1#'') r))
              = Some ''SW1#''"
    "\<And>r n. prompt_at (scripted (Some ''SW1#'') r) n \<noteq> None"
    "\<And>r n cmds. output_at (scripted (Some ''SW1#'') r) n cmds = r cmds"
    by (simp_all add: scripted_def)
  have cd: "conn ((attached ?d)\<lparr>cdp := [cdp_R1]\<rparr>) = Some ?d" by (simp add: attached_def)
  have ck: "conn (attached ?k) = Some ?k" by (simp add: attached_def)
  have ce: "conn ((attached ?e)\<lparr>cdp := [cdp_R1]\<rparr>) = Some ?e" by (simp add: attached_def)
  have h1: "contains ''CDP is not enabled'' ''% CDP is not enabled''" by code_simp
  have h2: "\<not> contains ''CDP is not enabled'' (cdp_detail_of [cdp_block_R1])" by code_simp
  have h3: "cdp_loop (cdp_blocks (cdp_detail_of [cdp_block_R1])) [] = Inr [cdp_R1]"
    by code_simp
  have h4: "\<not> contains ''CDP is not enabled'' []" by code_simp
  have h5: "cdp_loop (cdp_blocks []) [] = Inr []" by code_simp
  have h6: "[cdp_R1] \<noteq> []" by simp
  from get_cdp_disabled_or_replaces [OF cd p(1) refl refl] h1
  have 1: "fst (get_cdp ((attached ?d)\<lparr>cdp := [cdp_R1]\<rparr>)) = Inl CDPNotEnabledError
      \<and> cdp (snd (get_cdp ((attached ?d)\<lparr>cdp := [cdp_R1]\<rparr>))) = [cdp_R1]"
    by (simp add: p(3))
  from get_cdp_disabled_or_replaces [OF ck p(1) refl refl] h2 h3 h6
  have 2: "fst (get_cdp (attached ?k)) = Inr [cdp_R1]
      \<and> cdp (snd (get_cdp (attached ?k))) = [cdp_R1]"
    by (simp add: p(3))
  from get_cdp_disabled_or_replaces [OF ce p(1) refl refl] h4 h5 p(2)
  have 3: "fst (get_cdp ((attached ?e)\<lparr>cdp := [cdp_R1]\<rparr>)) = Inr []
      \<and> cdp (snd (get_cdp ((attached ?e)\<lparr>cdp := [cdp_R1]\<rparr>))) = []"
    by (simp add: p(3))
  from 1 2 3 show ?thesis by simp
qed

theorem get_cdp_not_replaced_counterexample:
  "\<not> contains ''CDP is not enabled'' (cdp_detail_of [cdp_block_partial, cdp_block_R1])
   \<and> fst (get_cdp (attached (scripted (Some ''SW1#'')
            (\<lambda>cmds. cdp_detail_of [cdp_block_partial, cdp_block_R1]))))
       = Inl ValidationError
   \<and> fst (get_cdp ((attached (scripted (Some ''SW1#'')
            (\<lambda>cmds. cdp_detail_of [cdp_block_partial, cdp_block_R1])))\<lparr>cdp := [cdp_R1]\<rparr>))
       = Inl ValidationError
   \<and> cdp (snd (get_cdp ((attached (scripted (Some ''SW1#'')
            (\<lambda>cmds. cdp_detail_of [cdp_block_partial, cdp_block_R1])))\<lparr>cdp := [cdp_R1]\<rparr>)))
       = [cdp_R1]
   \<and> fst (get_cdp (attached (fading []))) = Inl NotConnectedError"
  by code_simp

end
